theory Spec2Isabelle
  imports Main
begin

section \<open>Python values used by app.py\<close>

text \<open>
  Strings are byte strings (\<open>char list\<close>); the only case-sensitive operation of the
  source, \<open>str.lower\<close>, is compared against ASCII words, so the ASCII part of it decides.
  A value read with \<open>dict.get\<close> is a \<open>string option\<close>: \<open>None\<close> stands for a missing key
  and for JSON \<open>null\<close> alike (Python's \<open>None\<close>).
\<close>

definition truthy :: "string option \<Rightarrow> bool" where
  "truthy v = (case v of None \<Rightarrow> False | Some s \<Rightarrow> s \<noteq> [])"

text \<open>The idiom \<open>x or d\<close> on an optional string.\<close>

definition or_default :: "string option \<Rightarrow> string \<Rightarrow> string" where
  "or_default v d = (case v of None \<Rightarrow> d | Some s \<Rightarrow> if s = [] then d else s)"

text \<open>\<open>s.replace(c, new)\<close> for a one-character pattern: every occurrence is replaced.\<close>

definition str_replace :: "char \<Rightarrow> string \<Rightarrow> string \<Rightarrow> string" where
  "str_replace c new s = concat (map (\<lambda>x. if x = c then new else [x]) s)"

text \<open>\<open>s.split(c)\<close> for a one-character separator; the result is never the empty list.\<close>

fun split_on :: "char \<Rightarrow> string \<Rightarrow> string list" where
  "split_on c [] = [[]]"
| "split_on c (x # xs) =
     (if x = c then [] # split_on c xs
      else (case split_on c xs of [] \<Rightarrow> [[x]] | w # ws \<Rightarrow> (x # w) # ws))"

definition lower_char :: "char \<Rightarrow> char" where
  "lower_char c =
     (case map_of (zip ''ABCDEFGHIJKLMNOPQRSTUVWXYZ'' ''abcdefghijklmnopqrstuvwxyz'') c of
        Some l \<Rightarrow> l
      | None \<Rightarrow> c)"

definition lower :: "string \<Rightarrow> string" where
  "lower s = map lower_char s"

text \<open>Decimal rendering of an integer, as the f-string \<open>f"{article_id}"\<close> does.\<close>

fun digits :: "nat \<Rightarrow> string" where
  "digits n =
     (if n < 10 then [''0123456789'' ! n]
      else digits (n div 10) @ [''0123456789'' ! (n mod 10)])"

declare digits.simps [simp del]

definition str_int :: "int \<Rightarrow> string" where
  "str_int i = (if i < 0 then CHR ''-'' # digits (nat (- i)) else digits (nat i))"

section \<open>Data model\<close>

text \<open>
  The article dictionary built by \<open>fetch_headlines\<close>. \<open>published_at\<close> and \<open>full_text\<close>
  can hold Python's \<open>None\<close>; \<open>source_url\<close> is read with \<open>dict.get\<close> by the enricher, so
  it is optional too. The type of parsed timestamps is a parameter: the parsers are
  library functions.
\<close>

record 'dt article_record =
  art_id :: int
  title :: string
  description :: string
  content :: string
  source_name :: string
  source_url :: "string option"
  published_at :: "'dt option"
  full_text :: "string option"
  image_url :: string

text \<open>
  One element of the provider's \<open>articles\<close> array. The \<open>source\<close> key is an object with
  a \<open>name\<close>, is missing, or is \<open>null\<close>; the last case makes
  \<open>a.get("source", {}).get("name")\<close> raise.
\<close>

datatype source_field = SourceMissing | SourceNull | SourceObj "string option"

record entry =
  a_title :: "string option"
  a_description :: "string option"
  a_content :: "string option"
  a_source :: source_field
  a_url :: "string option"
  a_urlToImage :: "string option"
  a_publishedAt :: "string option"

datatype articles_field = ArticlesMissing | ArticlesNull | ArticlesList "entry list"

record provider_data =
  articles :: articles_field

text \<open>
  What \<open>resp.json()\<close> returns for a successful response: a JSON object, read with
  \<open>data.get\<close>, or a JSON value of another kind (an array, a string, a number, \<open>null\<close>),
  on which \<open>data.get\<close> raises. Values of another JSON type in the place of the
  \<open>articles\<close> array, of an entry or of one of its fields are outside the provider
  contract and outside the model.
\<close>

datatype response_body = JsonObject provider_data | JsonOther

datatype error = AttributeError | TypeError

record config =
  NEWSAPI_KEY :: "string option"
  COUNTRY :: string
  PAGE_SIZE :: int

text \<open>
  Outbound requests and log lines are recorded in the state, so that "no network access"
  and "the fetcher was invoked" are observable.
\<close>

datatype request = ApiGet string int | ImageGet string | PageGet string

datatype event = Request request | Warning string | Error string | Info string

text \<open>
  What the outside world answers while one request is served. \<open>None\<close> is a raised
  exception (timeout, transport error, HTTP error status for the API, undecodable JSON,
  parser failure); an HTTP answer is a status code and a body.
\<close>

record 'dt env =
  api_get :: "string \<Rightarrow> int \<Rightarrow> response_body option"
  image_get :: "string \<Rightarrow> (int \<times> string) option"
  page_get :: "string \<Rightarrow> (int \<times> string) option"
  extract_text :: "string \<Rightarrow> string \<Rightarrow> string option"
  fromisoformat :: "string \<Rightarrow> 'dt option"
  strptime :: "string \<Rightarrow> string \<Rightarrow> 'dt option"
  writable :: "string \<Rightarrow> bool"

record 'dt state =
  cached_articles :: "'dt article_record list"
  files :: "string \<Rightarrow> string option"
  events :: "event list"

datatype 'dt response =
  Page string "'dt article_record list" | Abort nat | InternalError error

text \<open>
  \<open>os.path.join\<close> is taken with the POSIX separator. The returned path replaces every
  backslash by a slash, as the source does for the other separator.
\<close>

definition LOCAL_IMG_FOLDER :: string where
  "LOCAL_IMG_FOLDER = ''static'' @ ''/'' @ ''images'' @ ''/'' @ ''news''"

definition PLACEHOLDER_IMAGE :: string where
  "PLACEHOLDER_IMAGE = ''/static/images/placeholder.jpg''"

definition log_event :: "event \<Rightarrow> 'dt state \<Rightarrow> 'dt state" where
  "log_event e st = st\<lparr>events := events st @ [e]\<rparr>"

section \<open>Utility functions\<close>

definition parse_datetime :: "'dt env \<Rightarrow> string option \<Rightarrow> 'dt option" where
  "parse_datetime env val =
     (case val of
        None \<Rightarrow> None
      | Some v \<Rightarrow>
          if v = [] then None
          else (case fromisoformat env (str_replace CHR ''Z'' ''+00:00'' v) of
                  Some d \<Rightarrow> Some d
                | None \<Rightarrow>
                    (case strptime env v ''%Y-%m-%dT%H:%M:%S'' of
                       Some d \<Rightarrow> Some d
                     | None \<Rightarrow> None)))"

definition image_ext :: "string \<Rightarrow> string" where
  "image_ext url =
     (let ext = hd (split_on CHR ''?'' (last (split_on CHR ''.'' url)))
      in if lower ext \<notin> set [''jpg'', ''jpeg'', ''png'', ''webp''] then ''jpg'' else ext)"

definition local_filename :: "string \<Rightarrow> int \<Rightarrow> string" where
  "local_filename url article_id =
     LOCAL_IMG_FOLDER @ ''/'' @ str_int article_id @ ''.'' @ image_ext url"

definition public_path :: "string \<Rightarrow> string" where
  "public_path fn = ''/'' @ str_replace (CHR 0x5C) ''/'' fn"

definition download_image ::
  "'dt env \<Rightarrow> string option \<Rightarrow> int \<Rightarrow> 'dt state \<Rightarrow> string \<times> 'dt state" where
  "download_image env url article_id st =
     (case url of
        None \<Rightarrow> (PLACEHOLDER_IMAGE, st)
      | Some u \<Rightarrow>
          if u = [] then (PLACEHOLDER_IMAGE, st)
          else
            let fn = local_filename u article_id in
            if files st fn \<noteq> None then (public_path fn, st)
            else
              let st1 = log_event (Request (ImageGet u)) st in
              (case image_get env u of
                 None \<Rightarrow> (PLACEHOLDER_IMAGE, log_event (Info ''Failed to download image: %s'') st1)
               | Some (status_code, body) \<Rightarrow>
                   if status_code = 200 then
                     if writable env fn
                     then (public_path fn, st1\<lparr>files := (files st1)(fn \<mapsto> body)\<rparr>)
                     else (PLACEHOLDER_IMAGE,
                           log_event (Info ''Failed to download image: %s'') st1)
                   else (PLACEHOLDER_IMAGE, st1)))"

section \<open>Headline fetcher\<close>

definition source_name_of :: "source_field \<Rightarrow> error + string" where
  "source_name_of s =
     (case s of
        SourceMissing \<Rightarrow> Inr (or_default None [])
      | SourceNull \<Rightarrow> Inl AttributeError
      | SourceObj n \<Rightarrow> Inr (or_default n []))"

text \<open>
  The \<open>for i, a in enumerate(articles_list, start=1)\<close> loop, with the loop variables
  \<open>i\<close> and \<open>out\<close> as arguments. \<open>make_article\<close> is the dictionary literal together
  with the assignment of \<open>image_url\<close>. The only expression of the literal that can raise
  is the source name, and it is evaluated before the image is mirrored, so a raise leaves
  the state as the previous iterations made it. The test \<open>len(out) >= page_size\<close> comes
  after the append.
\<close>

definition make_article ::
  "'dt env \<Rightarrow> int \<Rightarrow> entry \<Rightarrow> string \<Rightarrow> string \<Rightarrow> 'dt article_record" where
  "make_article env i a sn img =
     \<lparr>art_id = i,
      title = or_default (a_title a) ''No title'',
      description = or_default (a_description a) [],
      content = or_default (a_content a) [],
      source_name = sn,
      source_url = Some (or_default (a_url a) ''#''),
      published_at = parse_datetime env (a_publishedAt a),
      full_text = None,
      image_url = img\<rparr>"

fun fetch_loop ::
  "'dt env \<Rightarrow> int \<Rightarrow> int \<Rightarrow> entry list \<Rightarrow> 'dt article_record list \<Rightarrow> 'dt state
     \<Rightarrow> (error + 'dt article_record list) \<times> 'dt state" where
  "fetch_loop env page_size i [] out st = (Inr out, st)"
| "fetch_loop env page_size i (a # rest) out st =
     (case source_name_of (a_source a) of
        Inl e \<Rightarrow> (Inl e, st)
      | Inr sn \<Rightarrow>
          (case (if truthy (a_urlToImage a) then download_image env (a_urlToImage a) i st
                 else (PLACEHOLDER_IMAGE, st)) of
             (img, st') \<Rightarrow>
               let out' = out @ [make_article env i a sn img]
               in if int (length out') \<ge> page_size then (Inr out', st')
                  else fetch_loop env page_size (i + 1) rest out' st'))"

text \<open>
  \<open>data.get("articles", [])\<close> followed by \<open>enumerate\<close>: \<open>data.get\<close> raises when the
  body is not an object, a missing key is the empty list, and \<open>enumerate(None)\<close>
  raises. Both raises happen after the \<open>try\<close> block and are not caught.
\<close>

definition articles_list_of :: "response_body \<Rightarrow> error + entry list" where
  "articles_list_of data =
     (case data of
        JsonOther \<Rightarrow> Inl AttributeError
      | JsonObject d \<Rightarrow>
          (case articles d of
             ArticlesMissing \<Rightarrow> Inr []
           | ArticlesNull \<Rightarrow> Inl TypeError
           | ArticlesList l \<Rightarrow> Inr l))"

definition fetch_headlines ::
  "config \<Rightarrow> 'dt env \<Rightarrow> string \<Rightarrow> int \<Rightarrow> 'dt state
     \<Rightarrow> (error + 'dt article_record list) \<times> 'dt state" where
  "fetch_headlines cfg env country page_size st =
     (if \<not> truthy (NEWSAPI_KEY cfg)
      then (Inr [], log_event (Warning ''NEWSAPI_KEY not set in .env'') st)
      else
        let st1 = log_event (Request (ApiGet country (page_size * 2))) st in
        (case (case api_get env country (page_size * 2) of
                 None \<Rightarrow>
                   (JsonObject \<lparr>articles = ArticlesMissing\<rparr>,
                    log_event (Error ''Failed to fetch headlines: %s'') st1)
               | Some d \<Rightarrow> (d, st1)) of
           (data, st2) \<Rightarrow>
             (case articles_list_of data of
                Inl e \<Rightarrow> (Inl e, st2)
              | Inr articles_list \<Rightarrow>
                  (case fetch_loop env page_size 1 articles_list [] st2 of
                     (Inl e, st3) \<Rightarrow> (Inl e, st3)
                   | (Inr out, st3) \<Rightarrow>
                       if out = []
                       then (Inr [\<lparr>art_id = 1,
                                   title = ''No articles available right now'',
                                   description = ''Please check back later.'',
                                   content = [],
                                   source_name = [],
                                   source_url = Some ''#'',
                                   published_at = None,
                                   full_text = Some [],
                                   image_url = PLACEHOLDER_IMAGE\<rparr>], st3)
                       else (Inr out, st3)))))"

section \<open>Article enricher\<close>

text \<open>
  The record is mutated in place in the source; the model returns the updated record and
  the caller stores it back. The last line is
  \<open>art.text or article.get("content") or article.get("description")\<close>: the last operand
  is taken as it is, empty or not.
\<close>

definition enrich_article_with_newspaper ::
  "'dt env \<Rightarrow> 'dt article_record \<Rightarrow> 'dt state \<Rightarrow> 'dt article_record \<times> 'dt state" where
  "enrich_article_with_newspaper env art st =
     (case source_url art of
        None \<Rightarrow> (art, st)
      | Some url \<Rightarrow>
          if url = [] \<or> url = ''#'' then (art, st)
          else
            let st1 = log_event (Request (PageGet url)) st in
            (case page_get env url of
               None \<Rightarrow> (art, st1)
             | Some (status_code, html) \<Rightarrow>
                 if status_code \<noteq> 200 then (art, st1)
                 else
                   (case extract_text env url html of
                      None \<Rightarrow> (art, st1)
                    | Some body_text \<Rightarrow>
                        (art\<lparr>full_text :=
                               Some (if body_text \<noteq> [] then body_text
                                     else if content art \<noteq> [] then content art
                                     else description art)\<rparr>, st1))))"

section \<open>Routes\<close>

text \<open>
  \<open>next((x for x in cached_articles if x["id"] == article_id), None)\<close>: the position of
  the first record with the id, so that the mutation of that record can be stored back.
\<close>

fun find_article :: "int \<Rightarrow> 'dt article_record list \<Rightarrow> nat option" where
  "find_article article_id [] = None"
| "find_article article_id (x # xs) =
     (if art_id x = article_id then Some 0
      else map_option Suc (find_article article_id xs))"

definition index :: "config \<Rightarrow> 'dt env \<Rightarrow> 'dt state \<Rightarrow> 'dt response \<times> 'dt state" where
  "index cfg env st =
     (if cached_articles st = []
      then (case fetch_headlines cfg env (COUNTRY cfg) (PAGE_SIZE cfg) st of
              (Inl e, st') \<Rightarrow> (InternalError e, st')
            | (Inr out, st') \<Rightarrow> (Page ''index.html'' out, st'\<lparr>cached_articles := out\<rparr>))
      else (Page ''index.html'' (cached_articles st), st))"

definition article :: "'dt env \<Rightarrow> int \<Rightarrow> 'dt state \<Rightarrow> 'dt response \<times> 'dt state" where
  "article env article_id st =
     (case find_article article_id (cached_articles st) of
        None \<Rightarrow> (Abort 404, st)
      | Some k \<Rightarrow>
          let art = cached_articles st ! k in
          if \<not> truthy (full_text art)
          then (case enrich_article_with_newspaper env art st of
                  (art', st') \<Rightarrow>
                    (Page ''article.html'' [art'],
                     st'\<lparr>cached_articles := (cached_articles st')[k := art']\<rparr>))
          else (Page ''article.html'' [art], st))"

text \<open>
  The web server dispatches each inbound request to its route; the outside world may
  answer differently at each request.
\<close>

datatype http_request = GetIndex | GetArticle int

definition handle ::
  "config \<Rightarrow> 'dt env \<Rightarrow> http_request \<Rightarrow> 'dt state \<Rightarrow> 'dt response \<times> 'dt state" where
  "handle cfg env r st =
     (case r of GetIndex \<Rightarrow> index cfg env st | GetArticle article_id \<Rightarrow> article env article_id st)"

fun serve :: "config \<Rightarrow> ('dt env \<times> http_request) list \<Rightarrow> 'dt state \<Rightarrow> 'dt state" where
  "serve cfg [] st = st"
| "serve cfg ((env, r) # rs) st = serve cfg rs (snd (handle cfg env r st))"

text \<open>The process starts with an empty cache.\<close>

definition start :: "(string \<Rightarrow> string option) \<Rightarrow> 'dt state" where
  "start fs = \<lparr>cached_articles = [], files = fs, events = []\<rparr>"

section \<open>Observations on the event log\<close>

text \<open>
  Every call of \<open>fetch_headlines\<close> leaves exactly one mark in the log: the warning about
  the missing credential, or the request to the provider.
\<close>

fun is_fetch_mark :: "event \<Rightarrow> bool" where
  "is_fetch_mark (Warning m) = (m = ''NEWSAPI_KEY not set in .env'')"
| "is_fetch_mark (Request (ApiGet c n)) = True"
| "is_fetch_mark e = False"

definition fetch_invocations :: "'dt state \<Rightarrow> nat" where
  "fetch_invocations st = length (filter is_fetch_mark (events st))"

fun is_request :: "event \<Rightarrow> bool" where
  "is_request (Request r) = True"
| "is_request e = False"

definition network_requests :: "'dt state \<Rightarrow> nat" where
  "network_requests st = length (filter is_request (events st))"

section \<open>Relations used in the statements\<close>

text \<open>
  The records \<open>arts\<close> carry, position by position, the normalised fields of the provider
  entries \<open>es\<close>: everything the fetcher copies from an entry, the image apart.
\<close>

definition in_order :: "'dt env \<Rightarrow> 'dt article_record list \<Rightarrow> entry list \<Rightarrow> bool" where
  "in_order env arts es \<longleftrightarrow>
     map title arts = map (\<lambda>a. or_default (a_title a) ''No title'') es
   \<and> map description arts = map (\<lambda>a. or_default (a_description a) []) es
   \<and> map content arts = map (\<lambda>a. or_default (a_content a) []) es
   \<and> map source_url arts = map (\<lambda>a. Some (or_default (a_url a) ''#'')) es
   \<and> map published_at arts = map (\<lambda>a. parse_datetime env (a_publishedAt a)) es
   \<and> map full_text arts = map (\<lambda>a. None) es"

text \<open>
  One step of the history of a \<open>full_text\<close> field: a value is never replaced by \<open>None\<close>,
  and a non-empty text is never replaced at all.
\<close>

definition keeps_text :: "string option \<Rightarrow> string option \<Rightarrow> bool" where
  "keeps_text old new =
     (case old of
        None \<Rightarrow> True
      | Some t \<Rightarrow> (case new of None \<Rightarrow> False | Some t' \<Rightarrow> t = [] \<or> t' = t))"

section \<open>Concrete worlds\<close>

definition no_files :: "string \<Rightarrow> string option" where
  "no_files = (\<lambda>p. None)"

text \<open>Every outbound call raises; timestamps are numbers of seconds.\<close>

definition offline :: "nat env" where
  "offline =
     \<lparr>api_get = (\<lambda>c n. None), image_get = (\<lambda>u. None), page_get = (\<lambda>u. None),
      extract_text = (\<lambda>u h. None), fromisoformat = (\<lambda>s. None), strptime = (\<lambda>s f. None),
      writable = (\<lambda>p. True)\<rparr>"

definition with_key :: config where
  "with_key = \<lparr>NEWSAPI_KEY = Some ''k'', COUNTRY = ''us'', PAGE_SIZE = 2\<rparr>"

definition without_key :: config where
  "without_key = \<lparr>NEWSAPI_KEY = None, COUNTRY = ''us'', PAGE_SIZE = 2\<rparr>"

definition story :: "string \<Rightarrow> entry" where
  "story t =
     \<lparr>a_title = Some t, a_description = None, a_content = None,
      a_source = SourceObj (Some ''Wire''), a_url = Some (''http://n/'' @ t),
      a_urlToImage = None, a_publishedAt = Some ''2024-01-01T00:00:00Z''\<rparr>"

text \<open>The provider answers with the given entries; every page is served, with no text
  to extract in \<open>feed\<close> and with a body in \<open>feed_with_text\<close>.\<close>

definition feed :: "entry list \<Rightarrow> nat env" where
  "feed es =
     \<lparr>api_get = (\<lambda>c n. Some (JsonObject \<lparr>articles = ArticlesList es\<rparr>)),
      image_get = (\<lambda>u. Some (404, [])),
      page_get = (\<lambda>u. Some (200, ''<html></html>'')),
      extract_text = (\<lambda>u h. Some []),
      fromisoformat = (\<lambda>s. if s = ''2024-01-01T00:00:00+00:00'' then Some 1704067200 else None),
      strptime = (\<lambda>s f. None),
      writable = (\<lambda>p. True)\<rparr>"

definition answering :: "response_body \<Rightarrow> nat env" where
  "answering body = (feed [])\<lparr>api_get := (\<lambda>c n. Some body)\<rparr>"

definition feed_with_text :: "entry list \<Rightarrow> nat env" where
  "feed_with_text es = (feed es)\<lparr>extract_text := (\<lambda>u h. Some ''body'')\<rparr>"

definition images_up :: "string \<Rightarrow> nat env" where
  "images_up bytes = offline\<lparr>image_get := (\<lambda>u. Some (200, bytes))\<rparr>"

definition lone :: "string option \<Rightarrow> string option \<Rightarrow> nat article_record" where
  "lone url txt =
     \<lparr>art_id = 1, title = ''T'', description = ''D'', content = [], source_name = [],
      source_url = url, published_at = None, full_text = txt,
      image_url = PLACEHOLDER_IMAGE\<rparr>"

definition holding :: "nat article_record list \<Rightarrow> nat state" where
  "holding arts = \<lparr>cached_articles = arts, files = no_files, events = []\<rparr>"

section \<open>The timestamp parsers of the Python library\<close>

text \<open>
  \<open>datetime.fromisoformat\<close> and \<open>datetime.strptime\<close> are library functions, not code of
  the program, and \<open>parse_datetime\<close> takes them as parameters. The definitions of this
  section model them from the library's documentation, so that \<open>parse_datetime\<close> can be
  evaluated on concrete strings.

  \<open>py_fromisoformat\<close> follows the grammar documented for Python 3.7 to 3.10,
  \<open>YYYY-MM-DD[*HH[:MM[:SS[.fff[fff]]]][+HH:MM[:SS[.ffffff]]]]\<close>, where \<open>*\<close> matches any
  single character, with the range checks of the \<open>datetime\<close> constructor. Python 3.11
  and later accept further forms (the basic format, week dates, a bare \<open>Z\<close>); they
  still accept any separator character and still reject ordinal dates.

  \<open>py_strptime\<close> follows the directives of the one format the program uses,
  \<open>%Y-%m-%dT%H:%M:%S\<close>: a four-digit year, one or two digits for the other fields
  (the day also as a space and a digit), letters matched without regard to case, the
  whole string consumed; for any other format it is \<open>None\<close>.

  A value of \<open>pydatetime\<close> is a \<open>datetime\<close> object; \<open>dt_utcoffset\<close> is \<open>None\<close> for a naive
  value and the offset from UTC in microseconds otherwise.
\<close>

record pydatetime =
  dt_year :: nat
  dt_month :: nat
  dt_day :: nat
  dt_hour :: nat
  dt_minute :: nat
  dt_second :: nat
  dt_microsecond :: nat
  dt_utcoffset :: "int option"

definition is_digit :: "char \<Rightarrow> bool" where
  "is_digit c = (c \<in> set ''0123456789'')"

definition digit_value :: "char \<Rightarrow> nat" where
  "digit_value c =
     (case map_of (zip ''0123456789'' [0, 1, 2, 3, 4, 5, 6, 7, 8, 9]) c of
        Some n \<Rightarrow> n
      | None \<Rightarrow> 0)"

definition number :: "string \<Rightarrow> nat option" where
  "number s =
     (if s \<noteq> [] \<and> list_all is_digit s
      then Some (foldl (\<lambda>n c. 10 * n + digit_value c) 0 s)
      else None)"

definition is_leap :: "nat \<Rightarrow> bool" where
  "is_leap y = (y mod 4 = 0 \<and> (y mod 100 \<noteq> 0 \<or> y mod 400 = 0))"

definition days_in_month :: "nat \<Rightarrow> nat \<Rightarrow> nat" where
  "days_in_month y m =
     (if m = 2 then (if is_leap y then 29 else 28)
      else if m = 4 \<or> m = 6 \<or> m = 9 \<or> m = 11 then 30
      else 31)"

definition new_datetime ::
  "nat \<Rightarrow> nat \<Rightarrow> nat \<Rightarrow> nat \<Rightarrow> nat \<Rightarrow> nat \<Rightarrow> nat \<Rightarrow> int option \<Rightarrow> pydatetime option" where
  "new_datetime y m d hh mm ss us tz =
     (if 1 \<le> y \<and> y \<le> 9999 \<and> 1 \<le> m \<and> m \<le> 12 \<and> 1 \<le> d \<and> d \<le> days_in_month y m
         \<and> hh < 24 \<and> mm < 60 \<and> ss < 60 \<and> us < 1000000
      then Some \<lparr>dt_year = y, dt_month = m, dt_day = d, dt_hour = hh, dt_minute = mm,
                 dt_second = ss, dt_microsecond = us, dt_utcoffset = tz\<rparr>
      else None)"

definition parse_hh_mm_ss_ff :: "string \<Rightarrow> (nat \<times> nat \<times> nat \<times> nat) option" where
  "parse_hh_mm_ss_ff t =
     (let n = length t in
      if n = 2 then
        (case number t of Some hh \<Rightarrow> Some (hh, 0, 0, 0) | None \<Rightarrow> None)
      else if n = 5 \<and> t ! 2 = CHR '':'' then
        (case (number (take 2 t), number (drop 3 t)) of
           (Some hh, Some mm) \<Rightarrow> Some (hh, mm, 0, 0)
         | _ \<Rightarrow> None)
      else if 8 \<le> n \<and> t ! 2 = CHR '':'' \<and> t ! 5 = CHR '':'' then
        (case (number (take 2 t), number (take 2 (drop 3 t)), number (take 2 (drop 6 t))) of
           (Some hh, Some mm, Some ss) \<Rightarrow>
             if n = 8 then Some (hh, mm, ss, 0)
             else if t ! 8 = CHR ''.'' \<and> n = 12 then
               (case number (drop 9 t) of Some f \<Rightarrow> Some (hh, mm, ss, f * 1000) | None \<Rightarrow> None)
             else if t ! 8 = CHR ''.'' \<and> n = 15 then
               (case number (drop 9 t) of Some f \<Rightarrow> Some (hh, mm, ss, f) | None \<Rightarrow> None)
             else None
         | _ \<Rightarrow> None)
      else None)"

definition is_sign :: "char \<Rightarrow> bool" where
  "is_sign c = (c = CHR ''+'' \<or> c = CHR ''-'')"

definition parse_isoformat_time ::
  "string \<Rightarrow> (nat \<times> nat \<times> nat \<times> nat \<times> int option) option" where
  "parse_isoformat_time tstr =
     (case parse_hh_mm_ss_ff (takeWhile (\<lambda>c. \<not> is_sign c) tstr) of
        None \<Rightarrow> None
      | Some (hh, mm, ss, us) \<Rightarrow>
          (case dropWhile (\<lambda>c. \<not> is_sign c) tstr of
             [] \<Rightarrow> Some (hh, mm, ss, us, None)
           | sign # tzstr \<Rightarrow>
               if length tzstr = 5 \<or> length tzstr = 8 \<or> length tzstr = 15 then
                 (case parse_hh_mm_ss_ff tzstr of
                    None \<Rightarrow> None
                  | Some (th, tm, ts, tus) \<Rightarrow>
                      let off = (int th * 3600 + int tm * 60 + int ts) * 1000000 + int tus
                      in if off < 86400000000
                         then Some (hh, mm, ss, us,
                                    Some (if sign = CHR ''-'' then - off else off))
                         else None)
               else None))"

definition py_fromisoformat :: "string \<Rightarrow> pydatetime option" where
  "py_fromisoformat s =
     (if length s < 10 \<or> s ! 4 \<noteq> CHR ''-'' \<or> s ! 7 \<noteq> CHR ''-'' then None
      else
        (case (number (take 4 s), number (take 2 (drop 5 s)), number (take 2 (drop 8 s))) of
           (Some y, Some m, Some d) \<Rightarrow>
             if length s = 10 then new_datetime y m d 0 0 0 0 None
             else
               (case parse_isoformat_time (drop 11 s) of
                  None \<Rightarrow> None
                | Some (hh, mm, ss, us, tz) \<Rightarrow> new_datetime y m d hh mm ss us tz)
         | _ \<Rightarrow> None))"

definition field :: "nat \<Rightarrow> nat \<Rightarrow> string \<Rightarrow> nat option" where
  "field lo hi str =
     (case number str of
        Some n \<Rightarrow> if length str \<le> 2 \<and> lo \<le> n \<and> n \<le> hi then Some n else None
      | None \<Rightarrow> None)"

definition day_field :: "string \<Rightarrow> nat option" where
  "day_field str =
     (case str of
        [sp, c] \<Rightarrow> if sp = CHR '' '' then field 1 9 [c] else field 1 31 str
      | _ \<Rightarrow> field 1 31 str)"

definition py_strptime :: "string \<Rightarrow> string \<Rightarrow> pydatetime option" where
  "py_strptime s fmt =
     (if fmt \<noteq> ''%Y-%m-%dT%H:%M:%S'' \<or> length s < 5 \<or> s ! 4 \<noteq> CHR ''-'' then None
      else
        let r1 = drop 5 s;
            r2 = dropWhile (\<lambda>c. c \<noteq> CHR ''-'') r1;
            r3 = dropWhile (\<lambda>c. c \<noteq> CHR ''T'' \<and> c \<noteq> CHR ''t'') (drop 1 r2);
            r4 = dropWhile (\<lambda>c. c \<noteq> CHR '':'') (drop 1 r3);
            r5 = dropWhile (\<lambda>c. c \<noteq> CHR '':'') (drop 1 r4)
        in if r2 = [] \<or> r3 = [] \<or> r4 = [] \<or> r5 = [] then None
           else
             (case (number (take 4 s),
                    field 1 12 (takeWhile (\<lambda>c. c \<noteq> CHR ''-'') r1),
                    day_field (takeWhile (\<lambda>c. c \<noteq> CHR ''T'' \<and> c \<noteq> CHR ''t'') (drop 1 r2)),
                    field 0 23 (takeWhile (\<lambda>c. c \<noteq> CHR '':'') (drop 1 r3)),
                    field 0 59 (takeWhile (\<lambda>c. c \<noteq> CHR '':'') (drop 1 r4)),
                    field 0 61 (drop 1 r5)) of
                (Some y, Some m, Some d, Some hh, Some mm, Some ss) \<Rightarrow>
                  new_datetime y m d hh mm ss 0 None
              | _ \<Rightarrow> None))"

definition library :: "pydatetime env" where
  "library =
     \<lparr>api_get = (\<lambda>c n. None), image_get = (\<lambda>u. None), page_get = (\<lambda>u. None),
      extract_text = (\<lambda>u h. None), fromisoformat = py_fromisoformat,
      strptime = py_strptime, writable = (\<lambda>p. True)\<rparr>"

text \<open>
  The timestamps the provider sends: \<open>YYYY-MM-DDTHH:MM:SSZ\<close>, every field zero-padded.
\<close>

definition two_digits :: "nat \<Rightarrow> string" where
  "two_digits n = [''0123456789'' ! (n div 10 mod 10), ''0123456789'' ! (n mod 10)]"

definition four_digits :: "nat \<Rightarrow> string" where
  "four_digits n =
     [''0123456789'' ! (n div 1000 mod 10), ''0123456789'' ! (n div 100 mod 10),
      ''0123456789'' ! (n div 10 mod 10), ''0123456789'' ! (n mod 10)]"

definition timestamp_Z :: "nat \<Rightarrow> nat \<Rightarrow> nat \<Rightarrow> nat \<Rightarrow> nat \<Rightarrow> nat \<Rightarrow> string" where
  "timestamp_Z y m d hh mm ss =
     four_digits y @ ''-'' @ two_digits m @ ''-'' @ two_digits d @ ''T''
       @ two_digits hh @ '':'' @ two_digits mm @ '':'' @ two_digits ss @ ''Z''"

section \<open>Helper lemmas\<close>

lemma split_on_nonempty: "split_on c s \<noteq> []"
  by (induction s) (auto split: list.splits)

lemma str_replace_append:
  "str_replace c new (xs @ ys) = str_replace c new xs @ str_replace c new ys"
  by (simp add: str_replace_def)

lemma str_replace_absent: "c \<notin> set s \<Longrightarrow> str_replace c new s = s"
  by (induction s) (auto simp: str_replace_def)

lemma str_replace_trailing: "c \<notin> set s \<Longrightarrow> str_replace c new (s @ [c]) = s @ new"
  by (simp add: str_replace_append str_replace_absent) (simp add: str_replace_def)


lemma find_article_None: "find_article i xs = None \<longleftrightarrow> (\<forall>x \<in> set xs. art_id x \<noteq> i)"
  by (induction xs) auto

lemma find_article_Some:
  "find_article i xs = Some k \<Longrightarrow> k < length xs \<and> art_id (xs ! k) = i"
  by (induction xs arbitrary: k) (auto split: if_splits)

lemma source_name_of_ok: "s \<noteq> SourceNull \<Longrightarrow> \<exists>sn. source_name_of s = Inr sn"
  by (cases s) (simp_all add: source_name_of_def)

lemma make_article_fields [simp]:
  "art_id (make_article env i a sn img) = i"
  "title (make_article env i a sn img) = or_default (a_title a) ''No title''"
  "description (make_article env i a sn img) = or_default (a_description a) []"
  "content (make_article env i a sn img) = or_default (a_content a) []"
  "source_url (make_article env i a sn img) = Some (or_default (a_url a) ''#'')"
  "published_at (make_article env i a sn img) = parse_datetime env (a_publishedAt a)"
  "full_text (make_article env i a sn img) = None"
  by (simp_all add: make_article_def)

lemma in_order_Cons:
  "in_order env arts es \<Longrightarrow> in_order env (make_article env i a sn img # arts) (a # es)"
  by (simp add: in_order_def)

lemma in_order_Nil: "in_order env [] []"
  by (simp add: in_order_def)

lemma network_requests_log_event [simp]:
  "network_requests (log_event e st) = network_requests st + (if is_request e then 1 else 0)"
  by (simp add: network_requests_def log_event_def)

lemma network_requests_update [simp]:
  "network_requests (st\<lparr>files := f\<rparr>) = network_requests st"
  "network_requests (st\<lparr>cached_articles := c\<rparr>) = network_requests st"
  by (simp_all add: network_requests_def)

lemma fetch_invocations_log_event [simp]:
  "fetch_invocations (log_event e st) = fetch_invocations st + (if is_fetch_mark e then 1 else 0)"
  by (simp add: fetch_invocations_def log_event_def)

lemma fetch_invocations_update [simp]:
  "fetch_invocations (st\<lparr>files := f\<rparr>) = fetch_invocations st"
  "fetch_invocations (st\<lparr>cached_articles := c\<rparr>) = fetch_invocations st"
  by (simp_all add: fetch_invocations_def)

lemma cached_articles_log_event [simp]:
  "cached_articles (log_event e st) = cached_articles st"
  by (simp add: log_event_def)

lemma files_log_event [simp]: "files (log_event e st) = files st"
  by (simp add: log_event_def)

lemma events_log_event [simp]: "events (log_event e st) = events st @ [e]"
  by (simp add: log_event_def)

subsection \<open>The fetch loop\<close>

lemma fetch_loop_page:
  assumes "\<forall>a \<in> set entries. a_source a \<noteq> SourceNull"
    and "int (length out) < page_size"
    and "nat page_size - length out \<le> length entries"
  shows "\<exists>arts st'. fetch_loop env page_size i entries out st = (Inr (out @ arts), st')
           \<and> length arts = nat page_size - length out
           \<and> map art_id arts = [i..i + int (length arts) - 1]
           \<and> in_order env arts (take (length arts) entries)"
  using assms
proof (induction entries arbitrary: i out st)
  case Nil
  then show ?case by simp
next
  case (Cons a rest)
  from Cons.prems(1) obtain sn where sn: "source_name_of (a_source a) = Inr sn"
    using source_name_of_ok [of "a_source a"] by auto
  obtain img st1 where img:
    "(if truthy (a_urlToImage a) then download_image env (a_urlToImage a) i st
      else (PLACEHOLDER_IMAGE, st)) = (img, st1)"
    by (cases "if truthy (a_urlToImage a) then download_image env (a_urlToImage a) i st
               else (PLACEHOLDER_IMAGE, st)") blast
  let ?art = "make_article env i a sn img"
  show ?case
  proof (cases "int (length (out @ [?art])) \<ge> page_size")
    case True
    with Cons.prems(2) have n: "nat page_size - length out = 1" by simp
    have "fetch_loop env page_size i (a # rest) out st = (Inr (out @ [?art]), st1)"
      using sn img True by (simp add: Let_def)
    then show ?thesis using n by (simp add: in_order_Cons in_order_Nil)
  next
    case False
    then have lt: "int (length (out @ [?art])) < page_size" by simp
    have rest: "\<forall>a \<in> set rest. a_source a \<noteq> SourceNull" using Cons.prems(1) by simp
    have len: "nat page_size - length (out @ [?art]) \<le> length rest"
      using Cons.prems(3) by simp
    from Cons.IH [OF rest lt len, of "i + 1" st1]
    obtain arts st' where r:
      "fetch_loop env page_size (i + 1) rest (out @ [?art]) st1
         = (Inr ((out @ [?art]) @ arts), st')"
      "length arts = nat page_size - length (out @ [?art])"
      "map art_id arts = [i + 1..i + 1 + int (length arts) - 1]"
      "in_order env arts (take (length arts) rest)"
      by blast
    have step: "fetch_loop env page_size i (a # rest) out st = (Inr (out @ ?art # arts), st')"
      using sn img False r(1) by (simp add: Let_def)
    have l: "length (?art # arts) = nat page_size - length out"
      using r(2) lt by simp
    have ids: "map art_id (?art # arts) = [i..i + int (length (?art # arts)) - 1]"
      using r(3) by (simp add: upto_rec1 [of i] add.commute add.left_commute)
    have ord: "in_order env (?art # arts) (take (length (?art # arts)) (a # rest))"
      using r(4) by (simp add: in_order_Cons)
    show ?thesis using step l ids ord by blast
  qed
qed

subsection \<open>What the fetcher and the routes leave alone\<close>

lemma download_image_frame:
  "download_image env u i st = (img, st')
   \<Longrightarrow> cached_articles st' = cached_articles st \<and> fetch_invocations st' = fetch_invocations st"
  by (auto simp: download_image_def Let_def split: option.splits if_splits prod.splits)

lemma fetch_loop_frame:
  "fetch_loop env page_size i entries out st = (r, st')
   \<Longrightarrow> cached_articles st' = cached_articles st \<and> fetch_invocations st' = fetch_invocations st"
proof (induction entries arbitrary: i out st)
  case Nil
  then show ?case by simp
next
  case (Cons a rest)
  show ?case
  proof (cases "source_name_of (a_source a)")
    case (Inl e)
    with Cons.prems show ?thesis by simp
  next
    case (Inr sn)
    obtain img st1 where img:
      "(if truthy (a_urlToImage a) then download_image env (a_urlToImage a) i st
        else (PLACEHOLDER_IMAGE, st)) = (img, st1)"
      by (cases "if truthy (a_urlToImage a) then download_image env (a_urlToImage a) i st
                 else (PLACEHOLDER_IMAGE, st)") blast
    then have f1: "cached_articles st1 = cached_articles st
                 \<and> fetch_invocations st1 = fetch_invocations st"
      by (auto split: if_splits dest: download_image_frame)
    show ?thesis
    proof (cases "int (length (out @ [make_article env i a sn img])) \<ge> page_size")
      case True
      with Cons.prems Inr img have "st' = st1" by (simp add: Let_def)
      with f1 show ?thesis by simp
    next
      case False
      with Cons.prems Inr img
      have "fetch_loop env page_size (i + 1) rest (out @ [make_article env i a sn img]) st1
              = (r, st')"
        by (simp add: Let_def)
      from Cons.IH [OF this] f1 show ?thesis by simp
    qed
  qed
qed

lemma fetch_headlines_frame:
  assumes "fetch_headlines cfg env country page_size st = (r, st')"
  shows "cached_articles st' = cached_articles st
       \<and> fetch_invocations st' = fetch_invocations st + 1"
proof (cases "truthy (NEWSAPI_KEY cfg)")
  case False
  with assms show ?thesis by (auto simp: fetch_headlines_def)
next
  case True
  let ?st1 = "log_event (Request (ApiGet country (page_size * 2))) st"
  obtain data st2 where d:
    "(case api_get env country (page_size * 2) of
        None \<Rightarrow> (JsonObject \<lparr>articles = ArticlesMissing\<rparr>,
                  log_event (Error ''Failed to fetch headlines: %s'') ?st1)
      | Some d \<Rightarrow> (d, ?st1)) = (data, st2)"
    by (cases "case api_get env country (page_size * 2) of
        None \<Rightarrow> (JsonObject \<lparr>articles = ArticlesMissing\<rparr>,
                  log_event (Error ''Failed to fetch headlines: %s'') ?st1)
      | Some d \<Rightarrow> (d, ?st1)") blast
  then have f2: "cached_articles st2 = cached_articles st
               \<and> fetch_invocations st2 = fetch_invocations st + 1"
    by (auto split: option.splits)
  show ?thesis
  proof (cases "articles_list_of data")
    case (Inl e)
    with assms True d have "st' = st2" by (simp add: fetch_headlines_def Let_def)
    with f2 show ?thesis by simp
  next
    case (Inr l)
    obtain r3 st3 where l: "fetch_loop env page_size 1 l [] st2 = (r3, st3)"
      by (cases "fetch_loop env page_size 1 l [] st2") blast
    with assms True d Inr have "st' = st3"
      by (auto simp: fetch_headlines_def Let_def split: sum.splits if_splits)
    with fetch_loop_frame [OF l] f2 show ?thesis by simp
  qed
qed

lemma fetch_headlines_nonempty:
  assumes "truthy (NEWSAPI_KEY cfg)"
    and "fetch_headlines cfg env country page_size st = (Inr out, st')"
  shows "out \<noteq> []"
  using assms
  by (auto simp: fetch_headlines_def Let_def split: sum.splits if_splits prod.splits)

lemma index_cached:
  "cached_articles st \<noteq> []
   \<Longrightarrow> index cfg env st = (Page ''index.html'' (cached_articles st), st)"
  by (simp add: index_def)

lemma enrich_frame:
  assumes "enrich_article_with_newspaper env art st = (art', st')"
  shows "cached_articles st' = cached_articles st
       \<and> fetch_invocations st' = fetch_invocations st
       \<and> art'\<lparr>full_text := None\<rparr> = art\<lparr>full_text := None\<rparr>
       \<and> (full_text art' = full_text art \<or> (\<exists>x. full_text art' = Some x))"
  using assms
  by (auto simp: enrich_article_with_newspaper_def Let_def
      split: option.splits if_splits prod.splits)

lemma article_frame:
  assumes "article env i st = (r, st')"
  shows "fetch_invocations st' = fetch_invocations st
       \<and> map (\<lambda>a. a\<lparr>full_text := None\<rparr>) (cached_articles st')
         = map (\<lambda>a. a\<lparr>full_text := None\<rparr>) (cached_articles st)"
proof (cases "find_article i (cached_articles st)")
  case None
  with assms show ?thesis by (simp add: article_def)
next
  case (Some k)
  let ?art = "cached_articles st ! k"
  show ?thesis
  proof (cases "truthy (full_text ?art)")
    case True
    with assms Some show ?thesis by (simp add: article_def Let_def)
  next
    case False
    obtain art' st1 where e: "enrich_article_with_newspaper env ?art st = (art', st1)"
      by (cases "enrich_article_with_newspaper env ?art st") blast
    with assms Some False
    have st': "st' = st1\<lparr>cached_articles := (cached_articles st1)[k := art']\<rparr>"
      by (simp add: article_def Let_def)
    from enrich_frame [OF e] have f: "cached_articles st1 = cached_articles st"
      "fetch_invocations st1 = fetch_invocations st"
      "art'\<lparr>full_text := None\<rparr> = ?art\<lparr>full_text := None\<rparr>" by simp_all
    have "map (\<lambda>a. a\<lparr>full_text := None\<rparr>) ((cached_articles st)[k := art'])
          = (map (\<lambda>a. a\<lparr>full_text := None\<rparr>) (cached_articles st))
              [k := art'\<lparr>full_text := None\<rparr>]"
      by (simp add: map_update)
    also have "\<dots> = map (\<lambda>a. a\<lparr>full_text := None\<rparr>) (cached_articles st)"
      using find_article_Some [OF Some] f(3) by (simp add: list_update_same_conv)
    finally show ?thesis using st' f by simp
  qed
qed

lemma handle_cached_frame:
  assumes "cached_articles st \<noteq> []"
  shows "fetch_invocations (snd (handle cfg env r st)) = fetch_invocations st
       \<and> map (\<lambda>a. a\<lparr>full_text := None\<rparr>) (cached_articles (snd (handle cfg env r st)))
         = map (\<lambda>a. a\<lparr>full_text := None\<rparr>) (cached_articles st)"
proof (cases r)
  case GetIndex
  with assms show ?thesis by (simp add: handle_def index_cached)
next
  case (GetArticle i)
  then show ?thesis
    using article_frame [of env i st "fst (article env i st)" "snd (article env i st)"]
    by (simp add: handle_def)
qed

lemma serve_cached_frame:
  "cached_articles st \<noteq> []
   \<Longrightarrow> fetch_invocations (serve cfg reqs st) = fetch_invocations st
     \<and> map (\<lambda>a. a\<lparr>full_text := None\<rparr>) (cached_articles (serve cfg reqs st))
       = map (\<lambda>a. a\<lparr>full_text := None\<rparr>) (cached_articles st)"
proof (induction reqs arbitrary: st)
  case Nil
  then show ?case by simp
next
  case (Cons er reqs)
  obtain env r where er: "er = (env, r)" by (cases er)
  let ?st1 = "snd (handle cfg env r st)"
  from handle_cached_frame [OF Cons.prems, of cfg env r]
  have h: "fetch_invocations ?st1 = fetch_invocations st"
    "map (\<lambda>a. a\<lparr>full_text := None\<rparr>) (cached_articles ?st1)
       = map (\<lambda>a. a\<lparr>full_text := None\<rparr>) (cached_articles st)" by simp_all
  from h(2) Cons.prems have "cached_articles ?st1 \<noteq> []" by auto
  from Cons.IH [OF this] h er show ?case by simp
qed

subsection \<open>The history of \<open>full_text\<close>\<close>

lemma keeps_text_refl [simp]: "keeps_text v v"
  by (simp add: keeps_text_def split: option.splits)

lemma keeps_text_trans: "keeps_text a b \<Longrightarrow> keeps_text b c \<Longrightarrow> keeps_text a c"
  by (auto simp: keeps_text_def split: option.splits)

lemma article_keeps_text:
  assumes "k < length (cached_articles st)"
  shows "length (cached_articles (snd (article env i st))) = length (cached_articles st)
       \<and> keeps_text (full_text (cached_articles st ! k))
            (full_text (cached_articles (snd (article env i st)) ! k))"
proof (cases "find_article i (cached_articles st)")
  case None
  then show ?thesis by (simp add: article_def)
next
  case (Some j)
  let ?art = "cached_articles st ! j"
  show ?thesis
  proof (cases "truthy (full_text ?art)")
    case True
    with Some show ?thesis by (simp add: article_def Let_def)
  next
    case False
    obtain art' st1 where e: "enrich_article_with_newspaper env ?art st = (art', st1)"
      by (cases "enrich_article_with_newspaper env ?art st") blast
    with Some False
    have st': "snd (article env i st)
                 = st1\<lparr>cached_articles := (cached_articles st1)[j := art']\<rparr>"
      by (simp add: article_def Let_def)
    from enrich_frame [OF e] have c: "cached_articles st1 = cached_articles st"
      and t: "full_text art' = full_text ?art \<or> (\<exists>x. full_text art' = Some x)" by simp_all
    have "keeps_text (full_text ?art) (full_text art')"
      using False t by (auto simp: keeps_text_def truthy_def split: option.splits)
    then show ?thesis using st' c assms by (cases "j = k") simp_all
  qed
qed

lemma handle_keeps_text:
  assumes "k < length (cached_articles st)"
  shows "length (cached_articles (snd (handle cfg env r st))) = length (cached_articles st)
       \<and> keeps_text (full_text (cached_articles st ! k))
            (full_text (cached_articles (snd (handle cfg env r st)) ! k))"
proof (cases r)
  case GetIndex
  from assms have "cached_articles st \<noteq> []" by auto
  with GetIndex show ?thesis by (simp add: handle_def index_cached)
next
  case (GetArticle i)
  with article_keeps_text [OF assms, of env i] show ?thesis by (simp add: handle_def)
qed

lemma serve_keeps_text:
  "k < length (cached_articles st)
   \<Longrightarrow> length (cached_articles (serve cfg reqs st)) = length (cached_articles st)
     \<and> keeps_text (full_text (cached_articles st ! k))
          (full_text (cached_articles (serve cfg reqs st) ! k))"
proof (induction reqs arbitrary: st)
  case Nil
  then show ?case by simp
next
  case (Cons er reqs)
  obtain env r where er: "er = (env, r)" by (cases er)
  let ?st1 = "snd (handle cfg env r st)"
  from handle_keeps_text [OF Cons.prems, of cfg env r]
  have h: "length (cached_articles ?st1) = length (cached_articles st)"
    "keeps_text (full_text (cached_articles st ! k)) (full_text (cached_articles ?st1 ! k))"
    by simp_all
  from h(1) Cons.prems have "k < length (cached_articles ?st1)" by simp
  from Cons.IH [OF this] h er show ?case
    by (auto intro: keeps_text_trans)
qed

subsection \<open>Evaluating the concrete worlds\<close>

lemmas world_defs =
  offline_def feed_def answering_def feed_with_text_def images_up_def with_key_def
  without_key_def
  story_def lone_def holding_def no_files_def start_def

lemmas code_defs =
  truthy_def or_default_def index_def fetch_headlines_def articles_list_of_def
  source_name_of_def make_article_def parse_datetime_def str_replace_def
  article_def enrich_article_with_newspaper_def handle_def log_event_def
  download_image_def local_filename_def public_path_def image_ext_def lower_def
  lower_char_def str_int_def digits.simps LOCAL_IMG_FOLDER_def PLACEHOLDER_IMAGE_def
  fetch_invocations_def network_requests_def Let_def

subsection \<open>The library parsers on provider timestamps\<close>

lemmas library_defs =
  library_def py_fromisoformat_def py_strptime_def parse_isoformat_time_def
  parse_hh_mm_ss_ff_def new_datetime_def days_in_month_def is_leap_def number_def
  digit_value_def is_digit_def is_sign_def field_def day_field_def parse_datetime_def
  str_replace_def Let_def

lemma div_100: "(n::nat) div 10 div 10 = n div 100"
proof -
  have "n div 10 div 10 = n div (10 * 10)" by (rule div_mult2_eq [symmetric])
  then show ?thesis by (simp only: numeral_times_numeral)
qed

lemma div_1000: "(n::nat) div 10 div 10 div 10 = n div 1000"
proof -
  have "n div 100 div 10 = n div (100 * 10)" by (rule div_mult2_eq [symmetric])
  then show ?thesis by (simp only: div_100 numeral_times_numeral)
qed

lemma two_digit_value:
  assumes "(n::nat) < 100"
  shows "10 * (n div 10 mod 10) + n mod 10 = n"
proof -
  from assms have "n div 10 < 10" by (simp only: div_less_iff_less_mult)
  then have "n div 10 mod 10 = n div 10" by (rule mod_less)
  then show ?thesis by (simp only: mult_div_mod_eq)
qed

lemma four_digit_value:
  assumes "(n::nat) < 10000"
  shows "10 * (10 * (10 * (n div 1000 mod 10) + n div 100 mod 10) + n div 10 mod 10)
           + n mod 10 = n"
proof -
  from assms have "n div 1000 < 10" by (simp only: div_less_iff_less_mult)
  then have "n div 1000 mod 10 = n div 1000" by (rule mod_less)
  then have a: "n div 10 div 10 div 10 mod 10 = n div 10 div 10 div 10"
    by (simp only: div_1000)
  show ?thesis
    by (simp only: div_1000 [symmetric] div_100 [symmetric] a mult_div_mod_eq)
qed

lemma digit_char:
  assumes "k < 10"
  shows "is_digit (''0123456789'' ! k) \<and> digit_value (''0123456789'' ! k) = k"
proof -
  from assms have "k \<in> {0, 1, 2, 3, 4, 5, 6, 7, 8, 9}" by auto
  then show ?thesis
    by (elim insertE emptyE) (simp_all add: is_digit_def digit_value_def)
qed

lemma is_digit_plain:
  "is_digit c \<Longrightarrow> c \<noteq> CHR ''Z'' \<and> c \<noteq> CHR ''+'' \<and> c \<noteq> CHR ''-''"
  by (auto simp: is_digit_def)

lemma two_digits_shape:
  assumes "n < 100"
  shows "\<exists>a b. two_digits n = [a, b] \<and> is_digit a \<and> is_digit b \<and> number [a, b] = Some n"
proof -
  have a: "n div 10 mod 10 < 10" and b: "n mod 10 < 10" by simp_all
  have v: "10 * (n div 10 mod 10) + n mod 10 = n" using assms by (rule two_digit_value)
  show ?thesis
    using digit_char [OF a] digit_char [OF b] v
    by (simp add: two_digits_def number_def)
qed

lemma four_digits_shape:
  assumes "n < 10000"
  shows "\<exists>a b c d. four_digits n = [a, b, c, d] \<and> is_digit a \<and> is_digit b \<and> is_digit c
           \<and> is_digit d \<and> number [a, b, c, d] = Some n"
proof -
  have a: "n div 1000 mod 10 < 10" and b: "n div 100 mod 10 < 10"
    and c: "n div 10 mod 10 < 10" and d: "n mod 10 < 10" by simp_all
  have v: "10 * (10 * (10 * (n div 1000 mod 10) + n div 100 mod 10) + n div 10 mod 10)
             + n mod 10 = n"
    using assms by (rule four_digit_value)
  from assms have "n div 1000 < 10" by (simp only: div_less_iff_less_mult)
  then have e: "n div 1000 mod 10 = n div 1000" by (rule mod_less)
  show ?thesis
    using digit_char [OF a] digit_char [OF b] digit_char [OF c] digit_char [OF d] v e
    by (simp add: four_digits_def number_def)
qed

lemma fromisoformat_shape:
  assumes "number [y1, y2, y3, y4] = Some y" "number [m1, m2] = Some m"
    "number [d1, d2] = Some d" "number [h1, h2] = Some hh" "number [n1, n2] = Some mm"
    "number [s1, s2] = Some ss"
    and "\<not> is_sign h1" "\<not> is_sign h2" "\<not> is_sign n1" "\<not> is_sign n2"
      "\<not> is_sign s1" "\<not> is_sign s2"
  shows "py_fromisoformat
           ([y1, y2, y3, y4, CHR ''-'', m1, m2, CHR ''-'', d1, d2, CHR ''T'',
             h1, h2, CHR '':'', n1, n2, CHR '':'', s1, s2] @ ''+00:00'')
         = new_datetime y m d hh mm ss 0 (Some 0)"
proof -
  have z: "number ''00'' = Some 0" by (simp add: number_def is_digit_def digit_value_def)
  have c: "\<not> is_sign CHR '':''" "is_sign CHR ''+''" by (simp_all add: is_sign_def)
  have tz: "parse_hh_mm_ss_ff ''00:00'' = Some (0, 0, 0, 0)"
    using z by (simp add: parse_hh_mm_ss_ff_def)
  have tm: "parse_hh_mm_ss_ff [h1, h2, CHR '':'', n1, n2, CHR '':'', s1, s2]
              = Some (hh, mm, ss, 0)"
    using assms(4,5,6) by (simp add: parse_hh_mm_ss_ff_def)
  have t: "parse_isoformat_time
             ([h1, h2, CHR '':'', n1, n2, CHR '':'', s1, s2] @ ''+00:00'')
           = Some (hh, mm, ss, 0, Some 0)"
    using assms(7-12) c tm tz by (simp add: parse_isoformat_time_def)
  show ?thesis
    using assms(1,2,3) t by (simp add: py_fromisoformat_def)
qed

lemma parse_timestamp_Z:
  assumes "1 \<le> y" "y \<le> 9999" "1 \<le> m" "m \<le> 12" "1 \<le> d" "d \<le> days_in_month y m"
    "hh < 24" "mm < 60" "ss < 60"
  shows "parse_datetime library (Some (timestamp_Z y m d hh mm ss))
         = Some \<lparr>dt_year = y, dt_month = m, dt_day = d, dt_hour = hh, dt_minute = mm,
                  dt_second = ss, dt_microsecond = 0, dt_utcoffset = Some 0\<rparr>"
proof -
  have "d \<le> 31" using assms(6) by (simp add: days_in_month_def split: if_splits)
  then have lt: "y < 10000" "m < 100" "d < 100" "hh < 100" "mm < 100" "ss < 100"
    using assms by simp_all
  from four_digits_shape [OF lt(1)] obtain y1 y2 y3 y4 where
    y: "four_digits y = [y1, y2, y3, y4]" "is_digit y1" "is_digit y2" "is_digit y3"
       "is_digit y4" "number [y1, y2, y3, y4] = Some y" by blast
  from two_digits_shape [OF lt(2)] obtain m1 m2 where
    m: "two_digits m = [m1, m2]" "is_digit m1" "is_digit m2" "number [m1, m2] = Some m"
    by blast
  from two_digits_shape [OF lt(3)] obtain d1 d2 where
    d: "two_digits d = [d1, d2]" "is_digit d1" "is_digit d2" "number [d1, d2] = Some d"
    by blast
  from two_digits_shape [OF lt(4)] obtain h1 h2 where
    h: "two_digits hh = [h1, h2]" "is_digit h1" "is_digit h2" "number [h1, h2] = Some hh"
    by blast
  from two_digits_shape [OF lt(5)] obtain n1 n2 where
    n: "two_digits mm = [n1, n2]" "is_digit n1" "is_digit n2" "number [n1, n2] = Some mm"
    by blast
  from two_digits_shape [OF lt(6)] obtain s1 s2 where
    s: "two_digits ss = [s1, s2]" "is_digit s1" "is_digit s2" "number [s1, s2] = Some ss"
    by blast
  let ?b = "[y1, y2, y3, y4, CHR ''-'', m1, m2, CHR ''-'', d1, d2, CHR ''T'',
             h1, h2, CHR '':'', n1, n2, CHR '':'', s1, s2]"
  have ts: "timestamp_Z y m d hh mm ss = ?b @ ''Z''"
    by (simp add: timestamp_Z_def y(1) m(1) d(1) h(1) n(1) s(1))
  have noZ: "CHR ''Z'' \<notin> set ?b"
    using y(2-5) m(2,3) d(2,3) h(2,3) n(2,3) s(2,3) by (auto dest: is_digit_plain)
  have rp: "str_replace CHR ''Z'' ''+00:00'' (?b @ ''Z'') = ?b @ ''+00:00''"
    using str_replace_trailing [OF noZ, of "''+00:00''"] by simp
  have sg: "\<not> is_sign h1" "\<not> is_sign h2" "\<not> is_sign n1" "\<not> is_sign n2"
    "\<not> is_sign s1" "\<not> is_sign s2"
    using h(2,3) n(2,3) s(2,3) by (auto simp: is_sign_def dest: is_digit_plain)
  have "py_fromisoformat (?b @ ''+00:00'') = new_datetime y m d hh mm ss 0 (Some 0)"
    by (rule fromisoformat_shape [OF y(6) m(4) d(4) h(4) n(4) s(4) sg])
  also have "\<dots> = Some \<lparr>dt_year = y, dt_month = m, dt_day = d, dt_hour = hh,
                          dt_minute = mm, dt_second = ss, dt_microsecond = 0,
                          dt_utcoffset = Some 0\<rparr>"
    using assms by (simp add: new_datetime_def)
  finally show ?thesis
    unfolding ts parse_datetime_def using rp by (simp add: library_def)
qed

section \<open>Claims\<close>

text \<open>
  C1. Claimed: with no API credential configured, the first \<open>GET /\<close> renders the home
  page with exactly one placeholder article titled "No articles available right now".
  The code returns the empty list from \<open>fetch_headlines\<close> before the placeholder is
  synthesized, and \<open>index\<close> renders that empty list: the page is rendered with no
  article at all, and the cache stays empty.
\<close>

theorem index_without_credential:
  "index \<lparr>NEWSAPI_KEY = None, COUNTRY = c, PAGE_SIZE = n\<rparr> env (start fs) =
     (Page ''index.html'' [],
      \<lparr>cached_articles = [], files = fs,
       events = [Warning ''NEWSAPI_KEY not set in .env'']\<rparr>)"
  by (simp add: index_def fetch_headlines_def truthy_def start_def log_event_def)

text \<open>
  C2. Claimed: for every provider response with zero entries, and on any transport,
  HTTP or decoding failure, \<open>fetch_headlines\<close> returns exactly one placeholder record.
  A response whose \<open>articles\<close> is \<open>null\<close> has zero entries, and there
  \<open>enumerate(None)\<close> raises after the \<open>try\<close> block: no record is returned.
\<close>

theorem fetch_headlines_null_articles:
  "fst (fetch_headlines with_key (answering (JsonObject \<lparr>articles = ArticlesNull\<rparr>))
          ''us'' 2 (start no_files)) = Inl TypeError"
  by (simp add: world_defs code_defs)

text \<open>
  C2, as amended: with a credential configured, when the request to the provider fails
  in any way (transport, HTTP status, decoding), or the provider answers with a JSON
  object whose \<open>articles\<close> array is empty or whose \<open>articles\<close> key is missing,
  \<open>fetch_headlines\<close> returns exactly one record: id 1, the fixed "no articles" title
  and description, the placeholder image path, no timestamp and the empty full text.
\<close>

theorem fetch_headlines_no_entries:
  assumes "truthy (NEWSAPI_KEY cfg)"
    and "api_get env country (page_size * 2) = None
         \<or> api_get env country (page_size * 2)
             = Some (JsonObject \<lparr>articles = ArticlesList []\<rparr>)
         \<or> api_get env country (page_size * 2)
             = Some (JsonObject \<lparr>articles = ArticlesMissing\<rparr>)"
  shows "fst (fetch_headlines cfg env country page_size st) =
         Inr [\<lparr>art_id = 1,
               title = ''No articles available right now'',
               description = ''Please check back later.'',
               content = [],
               source_name = [],
               source_url = Some ''#'',
               published_at = None,
               full_text = Some [],
               image_url = ''/static/images/placeholder.jpg''\<rparr>]"
  using assms
  by (auto simp: fetch_headlines_def articles_list_of_def PLACEHOLDER_IMAGE_def Let_def)

theorem fetch_headlines_no_entries_witness:
  "truthy (NEWSAPI_KEY with_key)
   \<and> api_get offline ''us'' (2 * 2) = None
   \<and> api_get (feed []) ''us'' (2 * 2) = Some (JsonObject \<lparr>articles = ArticlesList []\<rparr>)
   \<and> api_get (answering (JsonObject \<lparr>articles = ArticlesMissing\<rparr>)) ''us'' (2 * 2)
       = Some (JsonObject \<lparr>articles = ArticlesMissing\<rparr>)
   \<and> fst (fetch_headlines with_key offline ''us'' 2 (start no_files)) =
       Inr [\<lparr>art_id = 1, title = ''No articles available right now'',
             description = ''Please check back later.'', content = [], source_name = [],
             source_url = Some ''#'', published_at = None, full_text = Some [],
             image_url = ''/static/images/placeholder.jpg''\<rparr>]
   \<and> fst (fetch_headlines with_key (feed []) ''us'' 2 (start no_files)) =
       Inr [\<lparr>art_id = 1, title = ''No articles available right now'',
             description = ''Please check back later.'', content = [], source_name = [],
             source_url = Some ''#'', published_at = None, full_text = Some [],
             image_url = ''/static/images/placeholder.jpg''\<rparr>]
   \<and> fst (fetch_headlines with_key (answering (JsonObject \<lparr>articles = ArticlesMissing\<rparr>))
            ''us'' 2 (start no_files)) =
       Inr [\<lparr>art_id = 1, title = ''No articles available right now'',
             description = ''Please check back later.'', content = [], source_name = [],
             source_url = Some ''#'', published_at = None, full_text = Some [],
             image_url = ''/static/images/placeholder.jpg''\<rparr>]"
proof -
  have k: "truthy (NEWSAPI_KEY with_key)" by (simp add: with_key_def truthy_def)
  have a: "api_get offline ''us'' (2 * 2) = None" by (simp add: offline_def)
  have b: "api_get (feed []) ''us'' (2 * 2) = Some (JsonObject \<lparr>articles = ArticlesList []\<rparr>)"
    by (simp add: feed_def)
  have c: "api_get (answering (JsonObject \<lparr>articles = ArticlesMissing\<rparr>)) ''us'' (2 * 2)
             = Some (JsonObject \<lparr>articles = ArticlesMissing\<rparr>)"
    by (simp add: answering_def)
  show ?thesis
    using k a b c
      fetch_headlines_no_entries [of with_key offline "''us''" 2 "start no_files"]
      fetch_headlines_no_entries [of with_key "feed []" "''us''" 2 "start no_files"]
      fetch_headlines_no_entries [of with_key
        "answering (JsonObject \<lparr>articles = ArticlesMissing\<rparr>)" "''us''" 2 "start no_files"]
    by simp
qed

text \<open>
  C3. Claimed: for every provider response with \<open>N \<ge> page_size\<close> well-formed entries,
  \<open>fetch_headlines\<close> returns exactly \<open>page_size\<close> records with ids \<open>1..page_size\<close> in
  provider order, the excess being discarded. The test \<open>len(out) >= page_size\<close> runs
  after the first append, so with \<open>page_size = 0\<close> one record is returned, not none.
\<close>

theorem fetch_headlines_page_size_zero:
  "fst (fetch_headlines with_key (feed [story ''A'', story ''B'']) ''us'' 0 (start no_files)) =
     Inr [\<lparr>art_id = 1, title = ''A'', description = [], content = [],
           source_name = ''Wire'', source_url = Some ''http://n/A'',
           published_at = Some 1704067200, full_text = None,
           image_url = ''/static/images/placeholder.jpg''\<rparr>]"
  by (simp add: world_defs code_defs)

text \<open>
  C3, as amended: for \<open>page_size \<ge> 1\<close> and a provider response with \<open>N \<ge> page_size\<close>
  well-formed entries, \<open>fetch_headlines\<close> returns exactly \<open>page_size\<close> records, their ids
  are \<open>1..page_size\<close>, and they carry the normalised fields of the first \<open>page_size\<close>
  entries in provider order; the entries beyond \<open>page_size\<close> are discarded.
\<close>

theorem fetch_headlines_full_page:
  assumes "truthy (NEWSAPI_KEY cfg)"
    and "1 \<le> page_size"
    and "api_get env country (page_size * 2)
           = Some (JsonObject \<lparr>articles = ArticlesList entries\<rparr>)"
    and "\<forall>a \<in> set entries. a_source a \<noteq> SourceNull"
    and "page_size \<le> int (length entries)"
  shows "\<exists>arts. fst (fetch_headlines cfg env country page_size st) = Inr arts
           \<and> length arts = nat page_size
           \<and> map art_id arts = [1..page_size]
           \<and> in_order env arts (take (nat page_size) entries)"
proof -
  let ?st2 = "log_event (Request (ApiGet country (page_size * 2))) st"
  have "nat page_size - length ([] :: 'a article_record list) \<le> length entries"
    using assms(5) by simp
  from fetch_loop_page [OF assms(4) _ this, of env 1 ?st2] assms(2)
  obtain arts st' where r:
    "fetch_loop env page_size 1 entries [] ?st2 = (Inr arts, st')"
    "length arts = nat page_size"
    "map art_id arts = [1..1 + int (length arts) - 1]"
    "in_order env arts (take (length arts) entries)"
    by auto
  from r(2) assms(2) have ne: "arts \<noteq> []" by auto
  have "fst (fetch_headlines cfg env country page_size st) = Inr arts"
    using assms(1,3) r(1) ne
    by (simp add: fetch_headlines_def articles_list_of_def Let_def)
  then show ?thesis using r(2,3,4) assms(2) by simp
qed

theorem fetch_headlines_full_page_witness:
  "truthy (NEWSAPI_KEY with_key) \<and> (1::int) \<le> 2
   \<and> api_get (feed [story ''A'', story ''B'', story ''C'']) ''us'' (2 * 2)
       = Some (JsonObject \<lparr>articles = ArticlesList [story ''A'', story ''B'', story ''C'']\<rparr>)
   \<and> map a_source [story ''A'', story ''B'', story ''C'']
       = [SourceObj (Some ''Wire''), SourceObj (Some ''Wire''), SourceObj (Some ''Wire'')]
   \<and> (2::int) \<le> int (length [story ''A'', story ''B'', story ''C''])
   \<and> (\<exists>arts. fst (fetch_headlines with_key (feed [story ''A'', story ''B'', story ''C''])
                    ''us'' 2 (start no_files)) = Inr arts
          \<and> length arts = 2 \<and> map art_id arts = [1, 2] \<and> map title arts = [''A'', ''B''])"
proof -
  let ?es = "[story ''A'', story ''B'', story ''C'']"
  have k: "truthy (NEWSAPI_KEY with_key)" by (simp add: with_key_def truthy_def)
  have p: "(1::int) \<le> 2" by simp
  have a: "api_get (feed ?es) ''us'' (2 * 2)
             = Some (JsonObject \<lparr>articles = ArticlesList ?es\<rparr>)"
    by (simp add: feed_def)
  have w: "\<forall>a \<in> set ?es. a_source a \<noteq> SourceNull" by (simp add: story_def)
  have n: "(2::int) \<le> int (length ?es)" by simp
  from fetch_headlines_full_page [OF k p a w n, of "start no_files"]
  obtain arts where r:
    "fst (fetch_headlines with_key (feed ?es) ''us'' 2 (start no_files)) = Inr arts"
    "length arts = nat 2" "map art_id arts = [1..2]"
    "in_order (feed ?es) arts (take (nat 2) ?es)"
    by blast
  have u: "[1..2] = [1, 2 :: int]" by (simp add: upto_rec1)
  have t: "map title arts = [''A'', ''B'']"
    using r(4) by (simp add: in_order_def story_def or_default_def numeral_2_eq_2)
  have m: "map a_source ?es
             = [SourceObj (Some ''Wire''), SourceObj (Some ''Wire''), SourceObj (Some ''Wire'')]"
    by (simp add: story_def)
  show ?thesis using k a m r(1,2,3) t u by auto
qed

text \<open>
  C4. Claimed: the cache is populated by invoking \<open>fetch_headlines\<close> exactly once, on the
  first home-page request that observes it empty, and never again, whatever the first
  fetch returned. \<open>index\<close> fetches whenever the cache is empty: with no credential the
  fetch returns the empty list, the cache stays empty, and a second home-page request
  invokes the fetcher a second time.
\<close>

theorem index_refetches_while_empty:
  "fetch_invocations
     (serve without_key [(offline, GetIndex), (offline, GetIndex)] (start no_files)) = 2"
  by (simp add: world_defs code_defs)

text \<open>
  C4, as amended: with a credential configured, a home-page request that observes the
  cache empty and renders invokes \<open>fetch_headlines\<close> exactly once and leaves a non-empty
  cache; after it, no sequence of home-page and detail requests invokes the fetcher
  again, and the cached records stay the same in every field but \<open>full_text\<close>.
\<close>

theorem cache_populated_once:
  assumes "truthy (NEWSAPI_KEY cfg)" and "cached_articles st = []"
    and "index cfg env st = (Page t arts, st1)"
  shows "fetch_invocations st1 = fetch_invocations st + 1
       \<and> cached_articles st1 = arts \<and> arts \<noteq> []
       \<and> fetch_invocations (serve cfg reqs st1) = fetch_invocations st1
       \<and> map (\<lambda>a. a\<lparr>full_text := None\<rparr>) (cached_articles (serve cfg reqs st1))
         = map (\<lambda>a. a\<lparr>full_text := None\<rparr>) arts"
proof -
  obtain r st' where f: "fetch_headlines cfg env (COUNTRY cfg) (PAGE_SIZE cfg) st = (r, st')"
    by (cases "fetch_headlines cfg env (COUNTRY cfg) (PAGE_SIZE cfg) st") blast
  with assms(2,3) have r: "r = Inr arts" and st1: "st1 = st'\<lparr>cached_articles := arts\<rparr>"
    by (auto simp: index_def split: sum.splits)
  from fetch_headlines_frame [OF f] st1
  have a: "fetch_invocations st1 = fetch_invocations st + 1" "cached_articles st1 = arts"
    by simp_all
  from fetch_headlines_nonempty [OF assms(1)] f r have b: "arts \<noteq> []" by blast
  with a(2) have "cached_articles st1 \<noteq> []" by simp
  from serve_cached_frame [OF this, of cfg reqs] a b show ?thesis by simp
qed

theorem cache_populated_once_witness:
  "truthy (NEWSAPI_KEY with_key) \<and> cached_articles (start no_files :: nat state) = []
   \<and> fst (index with_key (feed [story ''A'']) (start no_files))
       = Page ''index.html'' [make_article (feed [story ''A'']) 1 (story ''A'') ''Wire''
                                PLACEHOLDER_IMAGE]
   \<and> fetch_invocations
       (serve with_key
          [(feed [story ''A''], GetIndex), (feed [story ''A''], GetArticle 1),
           (feed [], GetIndex), (offline, GetIndex)]
          (start no_files)) = 1"
proof -
  let ?env = "feed [story ''A'']"
  let ?st = "start no_files :: nat state"
  let ?arts = "[make_article ?env 1 (story ''A'') ''Wire'' PLACEHOLDER_IMAGE]"
  have k: "truthy (NEWSAPI_KEY with_key)" by (simp add: with_key_def truthy_def)
  have e: "cached_articles ?st = []" by (simp add: start_def)
  have p: "fst (index with_key ?env ?st) = Page ''index.html'' ?arts"
    by (simp add: world_defs code_defs)
  then have i: "index with_key ?env ?st = (Page ''index.html'' ?arts, snd (index with_key ?env ?st))"
    by (simp add: prod_eq_iff)
  have z: "fetch_invocations ?st = 0" by (simp add: start_def fetch_invocations_def)
  from cache_populated_once [OF k e i,
      of "[(?env, GetArticle 1), (feed [], GetIndex), (offline, GetIndex)]"] z
  have "fetch_invocations
          (serve with_key [(?env, GetArticle 1), (feed [], GetIndex), (offline, GetIndex)]
             (snd (index with_key ?env ?st))) = 1"
    by simp
  then show ?thesis using k e p by (simp add: handle_def)
qed

text \<open>
  C5. Claimed: across any sequence of detail-page requests the \<open>full_text\<close> of a cached
  record changes at most once, from the absent marker to a populated value. The route
  enriches again while \<open>full_text\<close> is empty, and the enricher stores the description
  even when it is empty: a record with no content and no description goes from \<open>None\<close>
  to the empty string, and at a later request from the empty string to the text.
\<close>

theorem full_text_changes_twice:
  "map full_text (cached_articles
     (serve with_key [(feed [story ''A''], GetIndex)] (start no_files))) = [None]
   \<and> map full_text (cached_articles
     (serve with_key [(feed [story ''A''], GetIndex), (feed [story ''A''], GetArticle 1)]
        (start no_files))) = [Some []]
   \<and> map full_text (cached_articles
     (serve with_key [(feed [story ''A''], GetIndex), (feed [story ''A''], GetArticle 1),
                      (feed_with_text [story ''A''], GetArticle 1)]
        (start no_files))) = [Some ''body'']"
  by (simp add: world_defs code_defs)

text \<open>
  C5, as amended: across any sequence of requests, a cached record's \<open>full_text\<close> that
  holds a value is never set back to the absent marker, and once it holds a non-empty
  text it is never changed again; while it is absent or empty, a detail request may
  set it.
\<close>

theorem full_text_never_lost:
  assumes "k < length (cached_articles st)"
    and "full_text (cached_articles st ! k) = Some t"
  shows "k < length (cached_articles (serve cfg reqs st))
       \<and> (\<exists>t'. full_text (cached_articles (serve cfg reqs st) ! k) = Some t'
               \<and> (t \<noteq> [] \<longrightarrow> t' = t))"
  using serve_keeps_text [OF assms(1), of cfg reqs] assms
  by (auto simp: keeps_text_def split: option.splits)

theorem full_text_never_lost_witness:
  "0 < length (cached_articles (holding [lone (Some ''http://n/1'') (Some ''first'')]))
   \<and> full_text (cached_articles (holding [lone (Some ''http://n/1'') (Some ''first'')]) ! 0)
       = Some ''first''
   \<and> full_text (cached_articles
        (serve with_key [(feed_with_text [], GetArticle 1), (feed [], GetIndex)]
           (holding [lone (Some ''http://n/1'') (Some ''first'')])) ! 0) = Some ''first''"
proof -
  let ?st = "holding [lone (Some ''http://n/1'') (Some ''first'')]"
  have l: "0 < length (cached_articles ?st)" by (simp add: holding_def)
  have f: "full_text (cached_articles ?st ! 0) = Some ''first''"
    by (simp add: holding_def lone_def)
  from full_text_never_lost [OF l f,
      of with_key "[(feed_with_text [], GetArticle 1), (feed [], GetIndex)]"]
  show ?thesis using l f by auto
qed

text \<open>
  C6. Claimed: every ISO-8601 timestamp with a trailing \<open>Z\<close> parses to the equivalent
  instant with an explicit UTC offset, and every string matching neither ISO-8601 nor
  the fallback pattern \<open>%Y-%m-%dT%H:%M:%S\<close> yields \<open>None\<close>. What parses is what
  \<open>datetime.fromisoformat\<close> accepts after the replacement of \<open>Z\<close>, which is not
  ISO-8601: a date and a time separated by any character parse, although such a string
  is neither ISO-8601 nor matched by the fallback pattern, and an ISO-8601 ordinal date
  with a trailing \<open>Z\<close> yields \<open>None\<close>.
\<close>

theorem parse_datetime_not_iso8601:
  "parse_datetime library (Some ''2024-01-01x00:00:00'')
     = Some \<lparr>dt_year = 2024, dt_month = 1, dt_day = 1, dt_hour = 0, dt_minute = 0,
             dt_second = 0, dt_microsecond = 0, dt_utcoffset = None\<rparr>
   \<and> py_strptime ''2024-01-01x00:00:00'' ''%Y-%m-%dT%H:%M:%S'' = None
   \<and> parse_datetime library (Some ''2024-001T00:00:00Z'') = None"
  by (simp add: library_defs)

text \<open>
  C6, as amended: for every timestamp of the form \<open>YYYY-MM-DDTHH:MM:SSZ\<close> that names a
  valid date and time, parsing succeeds and yields that date and time with the UTC
  offset zero. For every string that ends in \<open>Z\<close> and has no other \<open>Z\<close>, parsing yields
  what \<open>datetime.fromisoformat\<close> yields on the same string with \<open>+00:00\<close> in place of the
  \<open>Z\<close>, whenever it accepts that form. For every string that neither
  \<open>datetime.fromisoformat\<close> (after the replacement) nor the fallback pattern accepts,
  parsing returns \<open>None\<close>. Both raises are caught, so a value is returned in every case.
  The first part is about the library as modelled above; the other two hold for any
  behaviour of the two library parsers.
\<close>

theorem parse_datetime_cases:
  "(1 \<le> y \<and> y \<le> 9999 \<and> 1 \<le> m \<and> m \<le> 12 \<and> 1 \<le> d \<and> d \<le> days_in_month y m
      \<and> hh < 24 \<and> mm < 60 \<and> ss < 60
      \<longrightarrow> parse_datetime library (Some (timestamp_Z y m d hh mm ss))
            = Some \<lparr>dt_year = y, dt_month = m, dt_day = d, dt_hour = hh, dt_minute = mm,
                    dt_second = ss, dt_microsecond = 0, dt_utcoffset = Some 0\<rparr>)
   \<and> (CHR ''Z'' \<notin> set s \<and> fromisoformat env (s @ ''+00:00'') = Some dt
      \<longrightarrow> parse_datetime env (Some (s @ ''Z'')) = Some dt)
   \<and> (fromisoformat env (str_replace CHR ''Z'' ''+00:00'' v) = None
        \<and> strptime env v ''%Y-%m-%dT%H:%M:%S'' = None
      \<longrightarrow> parse_datetime env (Some v) = None)"
proof (intro conjI impI)
  assume "1 \<le> y \<and> y \<le> 9999 \<and> 1 \<le> m \<and> m \<le> 12 \<and> 1 \<le> d \<and> d \<le> days_in_month y m
      \<and> hh < 24 \<and> mm < 60 \<and> ss < 60"
  then show "parse_datetime library (Some (timestamp_Z y m d hh mm ss))
            = Some \<lparr>dt_year = y, dt_month = m, dt_day = d, dt_hour = hh, dt_minute = mm,
                    dt_second = ss, dt_microsecond = 0, dt_utcoffset = Some 0\<rparr>"
    by (intro parse_timestamp_Z) simp_all
next
  assume "CHR ''Z'' \<notin> set s \<and> fromisoformat env (s @ ''+00:00'') = Some dt"
  then show "parse_datetime env (Some (s @ ''Z'')) = Some dt"
    by (auto simp: parse_datetime_def str_replace_trailing)
next
  assume "fromisoformat env (str_replace CHR ''Z'' ''+00:00'' v) = None
        \<and> strptime env v ''%Y-%m-%dT%H:%M:%S'' = None"
  then show "parse_datetime env (Some v) = None"
    by (auto simp: parse_datetime_def)
qed

theorem parse_datetime_cases_witness:
  "(1::nat) \<le> 2024 \<and> (2024::nat) \<le> 9999 \<and> (1::nat) \<le> 1 \<and> (1::nat) \<le> 12
   \<and> (1::nat) \<le> days_in_month 2024 1 \<and> (12::nat) < 24 \<and> (34::nat) < 60 \<and> (56::nat) < 60
   \<and> timestamp_Z 2024 1 1 12 34 56 = ''2024-01-01T12:34:56Z''
   \<and> parse_datetime library (Some ''2024-01-01T12:34:56Z'')
       = Some \<lparr>dt_year = 2024, dt_month = 1, dt_day = 1, dt_hour = 12, dt_minute = 34,
               dt_second = 56, dt_microsecond = 0, dt_utcoffset = Some 0\<rparr>
   \<and> CHR ''Z'' \<notin> set ''2024-01-01T00:00:00''
   \<and> fromisoformat (feed []) (''2024-01-01T00:00:00'' @ ''+00:00'') = Some 1704067200
   \<and> parse_datetime (feed []) (Some ''2024-01-01T00:00:00Z'') = Some 1704067200
   \<and> fromisoformat library (str_replace CHR ''Z'' ''+00:00'' ''yesterday'') = None
   \<and> strptime library ''yesterday'' ''%Y-%m-%dT%H:%M:%S'' = None
   \<and> parse_datetime library (Some ''yesterday'') = None"
proof -
  have r: "(1::nat) \<le> 2024 \<and> (2024::nat) \<le> 9999 \<and> (1::nat) \<le> 1 \<and> (1::nat) \<le> 12
      \<and> (1::nat) \<le> days_in_month 2024 1 \<and> (12::nat) < 24 \<and> (34::nat) < 60
      \<and> (56::nat) < 60"
    by (simp add: days_in_month_def)
  have t: "timestamp_Z 2024 1 1 12 34 56 = ''2024-01-01T12:34:56Z''"
    by (simp add: timestamp_Z_def two_digits_def four_digits_def)
  have z: "CHR ''Z'' \<notin> set ''2024-01-01T00:00:00''" by simp
  have a: "fromisoformat (feed []) (''2024-01-01T00:00:00'' @ ''+00:00'') = Some 1704067200"
    by (simp add: feed_def)
  have b: "fromisoformat library (str_replace CHR ''Z'' ''+00:00'' ''yesterday'') = None"
    by (simp add: library_defs)
  have c: "strptime library ''yesterday'' ''%Y-%m-%dT%H:%M:%S'' = None"
    by (simp add: library_defs)
  from parse_datetime_cases [of 2024 1 1 12 34 56 "''2024-01-01T00:00:00''" "feed []"
      1704067200 "''yesterday''"] r t z a
  have p1: "parse_datetime library (Some ''2024-01-01T12:34:56Z'')
       = Some \<lparr>dt_year = 2024, dt_month = 1, dt_day = 1, dt_hour = 12, dt_minute = 34,
               dt_second = 56, dt_microsecond = 0, dt_utcoffset = Some 0\<rparr>"
    and p2: "parse_datetime (feed []) (Some ''2024-01-01T00:00:00Z'') = Some 1704067200"
    by simp_all
  from parse_datetime_cases [of 2024 1 1 12 34 56 "''2024-01-01T00:00:00''" library _
      "''yesterday''"] b c
  have p3: "parse_datetime library (Some ''yesterday'') = None" by simp
  show ?thesis using r t z a b c p1 p2 p3 by simp
qed




text \<open>
  C8. For every detail request \<open>GET /article/{id}\<close> where no cached record has that
  id, the response is the not-found abort and the state is left as it was: no
  enrichment, hence no outbound request and no change of any record.
\<close>

theorem article_unknown_id:
  "\<forall>x \<in> set (cached_articles st). art_id x \<noteq> article_id
   \<Longrightarrow> article env article_id st = (Abort 404, st)"
  by (simp add: article_def find_article_None [THEN iffD2])

theorem article_unknown_id_witness:
  "map art_id (cached_articles (holding [lone (Some ''http://n/1'') None])) = [1]
   \<and> article (feed_with_text []) 2 (holding [lone (Some ''http://n/1'') None])
       = (Abort 404, holding [lone (Some ''http://n/1'') None])"
proof -
  have h: "\<forall>x \<in> set (cached_articles (holding [lone (Some ''http://n/1'') None])).
             art_id x \<noteq> 2"
    by (simp add: holding_def lone_def)
  have m: "map art_id (cached_articles (holding [lone (Some ''http://n/1'') None])) = [1]"
    by (simp add: holding_def lone_def)
  from article_unknown_id [OF h, of "feed_with_text []"] m show ?thesis by simp
qed

text \<open>
  C9. For every record whose \<open>source_url\<close> is absent or the sentinel \<open>#\<close>,
  \<open>enrich_article_with_newspaper\<close> returns the record unchanged, \<open>full_text\<close> included,
  and leaves the state unchanged: no outbound request is made.
\<close>

theorem enrich_sentinel_noop:
  "source_url art = None \<or> source_url art = Some ''#''
   \<Longrightarrow> enrich_article_with_newspaper env art st = (art, st)"
  by (auto simp: enrich_article_with_newspaper_def)

theorem enrich_sentinel_noop_witness:
  "source_url (lone (Some ''#'') None) = Some ''#''
   \<and> enrich_article_with_newspaper (feed_with_text []) (lone (Some ''#'') None)
        (holding [lone (Some ''#'') None])
       = (lone (Some ''#'') None, holding [lone (Some ''#'') None])
   \<and> source_url (lone None None) = None
   \<and> enrich_article_with_newspaper (feed_with_text []) (lone None None)
        (holding [lone None None])
       = (lone None None, holding [lone None None])"
proof -
  have a: "source_url (lone (Some ''#'') None) = Some ''#''" by (simp add: lone_def)
  have b: "source_url (lone None None) = None" by (simp add: lone_def)
  from enrich_sentinel_noop [of "lone (Some ''#'') None" "feed_with_text []"
      "holding [lone (Some ''#'') None]"]
    enrich_sentinel_noop [of "lone None None" "feed_with_text []" "holding [lone None None]"]
    a b
  show ?thesis by simp
qed

text \<open>
  C10. The existence check of \<open>download_image\<close> looks at the identifier and the derived
  extension only: for every identifier and two non-empty URLs that derive the same
  extension, if a file exists at the path derived from the first, a call with the second
  returns that path and leaves the state unchanged, so no request is made and the stored
  bytes stay those of whatever was mirrored there.
\<close>

theorem download_image_same_slot:
  assumes "u2 \<noteq> []" and "image_ext u1 = image_ext u2"
    and "files st (local_filename u1 i) \<noteq> None"
  shows "download_image env (Some u2) i st = (public_path (local_filename u1 i), st)"
  using assms by (auto simp: download_image_def local_filename_def Let_def)

theorem download_image_same_slot_witness:
  "''http://m/b.png?w=1'' \<noteq> [] \<and> ''http://n/a.png'' \<noteq> ''http://m/b.png?w=1''
   \<and> image_ext ''http://n/a.png'' = image_ext ''http://m/b.png?w=1''
   \<and> files (snd (download_image (images_up ''PNG1'') (Some ''http://n/a.png'') 7
                    (start no_files)))
        (local_filename ''http://n/a.png'' 7) = Some ''PNG1''
   \<and> download_image (images_up ''PNG2'') (Some ''http://m/b.png?w=1'') 7
        (snd (download_image (images_up ''PNG1'') (Some ''http://n/a.png'') 7
               (start no_files)))
       = (''/static/images/news/7.png'',
          snd (download_image (images_up ''PNG1'') (Some ''http://n/a.png'') 7
                 (start no_files)))"
proof -
  let ?st = "snd (download_image (images_up ''PNG1'') (Some ''http://n/a.png'') 7
                    (start no_files))"
  have n: "''http://m/b.png?w=1'' \<noteq> []" by simp
  have e: "image_ext ''http://n/a.png'' = image_ext ''http://m/b.png?w=1''"
    by (simp add: image_ext_def lower_def lower_char_def)
  have f: "files ?st (local_filename ''http://n/a.png'' 7) = Some ''PNG1''"
    by (simp add: world_defs code_defs)
  then have f': "files ?st (local_filename ''http://n/a.png'' 7) \<noteq> None" by simp
  have p: "public_path (local_filename ''http://n/a.png'' 7) = ''/static/images/news/7.png''"
    by (simp add: code_defs)
  from download_image_same_slot [OF n e f', of "images_up ''PNG2''"] p
  show ?thesis using e f by simp
qed

end
